theory Spec2Isabelle
  imports Complex_Main "HOL-Library.Sublist" "HOL-Library.Multiset"
begin

section \<open>Data model\<close>

text \<open>
  The objects handed over by the BLE library, reduced to the fields the hook and the
  components read. A nullable field is an \<open>option\<close>. The promise returned by
  \<^verbatim>\<open>service.characteristics()\<close> either resolves to a list or rejects; its outcome is
  carried by the service object (\<open>None\<close> is the rejection).
\<close>

record characteristic =
  char_uuid :: string
  char_value :: "string option"

record service =
  svc_uuid :: string
  svc_characteristics :: "characteristic list option"

record device =
  dev_id :: string
  dev_name :: "string option"
  dev_rssi :: "real option"
  dev_txPowerLevel :: "real option"

text \<open>\<^verbatim>\<open>interface DeviceDetails\<close>: the \<open>characteristics\<close> field is optional, and is an object
  keyed by service UUID.\<close>

record device_details =
  services :: "service list"
  characteristics :: "(string \<rightharpoonup> characteristic list) option"

text \<open>A callback handed to \<^verbatim>\<open>setTimeout\<close>: the only one in the hook is a call of
  \<^verbatim>\<open>connectToDevice(deviceId, attempts)\<close>.\<close>

datatype task = ConnectTask string nat

text \<open>
  The six \<^verbatim>\<open>useState\<close> cells of \<^verbatim>\<open>useBleManager\<close>, together with the two pieces of
  state that live outside React: whether the BLE manager is delivering scan results
  (\<open>scanning\<close>) and the queue of pending timers, each with its delay in milliseconds.
\<close>

record hook_state =
  devices :: "device list"
  connectedDevice :: "device option"
  deviceDetails :: "device_details option"
  isConnecting :: bool
  shouldReconnect :: bool
  reconnectAttempts :: nat
  scanning :: bool
  timers :: "(nat \<times> task) list"

definition MAX_RECONNECT_ATTEMPTS :: nat where
  "MAX_RECONNECT_ATTEMPTS = 3"

text \<open>The state of the first render: the initial values given to \<^verbatim>\<open>useState\<close>.\<close>

definition initial_state :: hook_state where
  "initial_state = \<lparr>devices = [], connectedDevice = None, deviceDetails = None,
     isConnecting = False, shouldReconnect = True, reconnectAttempts = 0,
     scanning = False, timers = []\<rparr>"

section \<open>Primitive effects\<close>

text \<open>\<^verbatim>\<open>devices.findIndex(p)\<close>: the index of the first element satisfying \<open>p\<close>, or \<open>-1\<close>.\<close>

fun findIndexFrom :: "int \<Rightarrow> ('a \<Rightarrow> bool) \<Rightarrow> 'a list \<Rightarrow> int" where
  "findIndexFrom i P [] = - 1"
| "findIndexFrom i P (x # xs) = (if P x then i else findIndexFrom (i + 1) P xs)"

definition findIndex :: "('a \<Rightarrow> bool) \<Rightarrow> 'a list \<Rightarrow> int" where
  "findIndex P xs = findIndexFrom 0 P xs"

definition isDuplicate :: "device list \<Rightarrow> device \<Rightarrow> bool" where
  "isDuplicate devs nextDevice =
     (findIndex (\<lambda>dev. dev_id nextDevice = dev_id dev) devs > - 1)"

text \<open>Truthiness of a nullable string: \<^verbatim>\<open>null\<close> and the empty string are falsy.\<close>

definition truthy :: "string option \<Rightarrow> bool" where
  "truthy v = (case v of None \<Rightarrow> False | Some s \<Rightarrow> s \<noteq> [])"

text \<open>
  Everything a handler does to the world is one of these actions: a call of a state
  setter (with a value, or with an updater function as in
  \<^verbatim>\<open>setReconnectAttempts(prev => prev + 1)\<close>), a call into the BLE library, a
  \<^verbatim>\<open>setTimeout\<close>, the firing of the oldest pending timer, or a \<^verbatim>\<open>console.error\<close>.
  A handler is a function from what its closure captured and from the outcomes of the
  calls it awaits to the list of actions it performs, in program order. The state held
  here is the one that the next render will show: every setter acts on it at once.
\<close>

datatype action =
    SetDevices "device list"
  | AppendDevice device
  | SetConnectedDevice "device option"
  | SetDeviceDetails "device_details option"
  | SetIsConnecting bool
  | SetShouldReconnect bool
  | SetReconnectAttempts nat
  | IncReconnectAttempts
  | StartDeviceScan
  | StopDeviceScan
  | BleConnect string
  | BleDiscover
  | BleServices
  | BleCharacteristics string
  | BleCancel string
  | SetTimeout nat task
  | TimerFires
  | ConsoleError

text \<open>\<open>AppendDevice\<close> is the updater of the scan listener:
  \<^verbatim>\<open>prevState => !isDuplicate(prevState, device) ? [...prevState, device] : prevState\<close>.\<close>

fun apply_action :: "action \<Rightarrow> hook_state \<Rightarrow> hook_state" where
  "apply_action (SetDevices ds) s = s\<lparr>devices := ds\<rparr>"
| "apply_action (AppendDevice d) s =
     s\<lparr>devices := (if \<not> isDuplicate (devices s) d then devices s @ [d] else devices s)\<rparr>"
| "apply_action (SetConnectedDevice d) s = s\<lparr>connectedDevice := d\<rparr>"
| "apply_action (SetDeviceDetails dd) s = s\<lparr>deviceDetails := dd\<rparr>"
| "apply_action (SetIsConnecting b) s = s\<lparr>isConnecting := b\<rparr>"
| "apply_action (SetShouldReconnect b) s = s\<lparr>shouldReconnect := b\<rparr>"
| "apply_action (SetReconnectAttempts n) s = s\<lparr>reconnectAttempts := n\<rparr>"
| "apply_action IncReconnectAttempts s = s\<lparr>reconnectAttempts := reconnectAttempts s + 1\<rparr>"
| "apply_action StartDeviceScan s = s\<lparr>scanning := True\<rparr>"
| "apply_action StopDeviceScan s = s\<lparr>scanning := False\<rparr>"
| "apply_action (BleConnect i) s = s"
| "apply_action BleDiscover s = s"
| "apply_action BleServices s = s"
| "apply_action (BleCharacteristics u) s = s"
| "apply_action (BleCancel i) s = s"
| "apply_action (SetTimeout ms t) s = s\<lparr>timers := timers s @ [(ms, t)]\<rparr>"
| "apply_action TimerFires s = s\<lparr>timers := tl (timers s)\<rparr>"
| "apply_action ConsoleError s = s"

fun run :: "action list \<Rightarrow> hook_state \<Rightarrow> hook_state" where
  "run [] s = s"
| "run (a # as) s = run as (apply_action a s)"

section \<open>Scanning\<close>

definition scanDevices :: "action list" where
  "scanDevices =
     [SetDevices [], SetConnectedDevice None, SetDeviceDetails None, StartDeviceScan]"

text \<open>The listener passed to \<^verbatim>\<open>startDeviceScan\<close>, called with \<open>(error, device)\<close>.\<close>

definition scanListener :: "string option \<Rightarrow> device option \<Rightarrow> action list" where
  "scanListener error dev =
     (case error of
        Some e \<Rightarrow> [ConsoleError]
      | None \<Rightarrow>
          (case dev of
             None \<Rightarrow> []
           | Some d \<Rightarrow> if truthy (dev_name d) then [AppendDevice d] else []))"

text \<open>The BLE manager calls the listener only while a scan is running.\<close>

definition advertise :: "hook_state \<Rightarrow> string option \<times> device option \<Rightarrow> hook_state" where
  "advertise s ev = (if scanning s then run (scanListener (fst ev) (snd ev)) s else s)"

definition advertiseAll :: "(string option \<times> device option) list \<Rightarrow> hook_state \<Rightarrow> hook_state" where
  "advertiseAll evs s = foldl advertise s evs"

text \<open>The advertisements of a scan that reach the registry's updater: those delivered
  without an error and with a device whose name is truthy, in the order of delivery.\<close>

definition advertised :: "(string option \<times> device option) list \<Rightarrow> device list" where
  "advertised evs =
     concat (map (\<lambda>ev. case ev of
                          (None, Some d) \<Rightarrow> if truthy (dev_name d) then [d] else []
                        | _ \<Rightarrow> []) evs)"

section \<open>Fetching the detail of a connected device\<close>

text \<open>
  \<^verbatim>\<open>device.services()\<close> rejects, or resolves to the list of services. In the second
  case the characteristics of all services are requested at once
  (\<^verbatim>\<open>Promise.all(services.map(...))\<close>) and each continuation writes its entry into the
  local object \<^verbatim>\<open>characteristicsByServiceUUID\<close> when its own promise settles, so the
  order of the writes is the order of settlement: the second argument of \<open>ServicesOk\<close>
  lists the services in that order.
\<close>

datatype services_outcome = ServicesFail | ServicesOk "service list" "service list"

definition settle ::
    "(string \<rightharpoonup> characteristic list) \<Rightarrow> service \<Rightarrow> (string \<rightharpoonup> characteristic list)" where
  "settle m svc =
     (case svc_characteristics svc of
        Some cs \<Rightarrow> m(svc_uuid svc \<mapsto> cs)
      | None \<Rightarrow> m(svc_uuid svc \<mapsto> []))"

definition characteristicsByServiceUUID ::
    "service list \<Rightarrow> (string \<rightharpoonup> characteristic list)" where
  "characteristicsByServiceUUID settled = foldl settle Map.empty settled"

definition getServicesAndCharacteristics :: "services_outcome \<Rightarrow> action list" where
  "getServicesAndCharacteristics out =
     (case out of
        ServicesFail \<Rightarrow> [BleServices, ConsoleError]
      | ServicesOk svcs settled \<Rightarrow>
          [BleServices]
          @ map (\<lambda>svc. BleCharacteristics (svc_uuid svc)) svcs
          @ concat (map (\<lambda>svc. if svc_characteristics svc = None then [ConsoleError] else [])
                        settled)
          @ [SetDeviceDetails (Some \<lparr>services = svcs,
               characteristics = Some (characteristicsByServiceUUID settled)\<rparr>)])"

section \<open>Connecting, disconnecting, switching\<close>

text \<open>What the two awaited calls at the head of \<^verbatim>\<open>connectToDevice\<close> do: the connect
  rejects; or it resolves and the discovery rejects; or both resolve, to a device, and
  the detail fetch then runs.\<close>

datatype connect_outcome = ConnectFails | DiscoverFails | Connected device services_outcome

definition connectToDevice :: "string \<Rightarrow> nat \<Rightarrow> connect_outcome \<Rightarrow> action list" where
  "connectToDevice deviceId attempts out =
     (let catch = ConsoleError #
            (if attempts < MAX_RECONNECT_ATTEMPTS - 1
             then [SetTimeout 2000 (ConnectTask deviceId (attempts + 1))] else [])
      in [SetIsConnecting True, BleConnect deviceId]
         @ (case out of
              ConnectFails \<Rightarrow> catch
            | DiscoverFails \<Rightarrow> BleDiscover # catch
            | Connected dev so \<Rightarrow>
                [BleDiscover, SetConnectedDevice (Some dev), StopDeviceScan]
                @ getServicesAndCharacteristics so
                @ [SetReconnectAttempts 0])
         @ [SetIsConnecting False])"

text \<open>
  \<^verbatim>\<open>handleDisconnect\<close> and \<^verbatim>\<open>switchToDevice\<close> read \<^verbatim>\<open>shouldReconnect\<close>,
  \<^verbatim>\<open>reconnectAttempts\<close> and \<^verbatim>\<open>connectedDevice\<close>. These are constants of the render in
  which the callback was created: a setter called meanwhile changes the state of the next
  render, not the constant the closure holds. The first argument \<open>r\<close> is the state of
  that render. The dependency lists of the two \<^verbatim>\<open>useCallback\<close>s name every state
  variable read, and \<^verbatim>\<open>switchToDevice\<close> depends on \<^verbatim>\<open>handleDisconnect\<close>, so the
  \<^verbatim>\<open>handleDisconnect\<close> that a \<^verbatim>\<open>switchToDevice\<close> calls holds the values of the same
  render. The boolean says whether \<^verbatim>\<open>cancelDeviceConnection\<close> resolves.
\<close>

definition handleDisconnect :: "hook_state \<Rightarrow> string \<Rightarrow> bool \<Rightarrow> action list" where
  "handleDisconnect r deviceId cancelled =
     [SetConnectedDevice None, SetDeviceDetails None, BleCancel deviceId]
     @ (if cancelled then
          (if shouldReconnect r \<and> reconnectAttempts r < MAX_RECONNECT_ATTEMPTS
           then [IncReconnectAttempts, SetTimeout 2000 (ConnectTask deviceId 0)]
           else [])
        else [ConsoleError])"

definition switchToDevice ::
    "hook_state \<Rightarrow> string \<Rightarrow> bool \<Rightarrow> connect_outcome \<Rightarrow> action list" where
  "switchToDevice r deviceId cancelled out =
     [SetShouldReconnect False]
     @ (case connectedDevice r of
          Some current \<Rightarrow>
            handleDisconnect r (dev_id current) cancelled @ connectToDevice deviceId 0 out
        | None \<Rightarrow> connectToDevice deviceId 0 out)
     @ [SetShouldReconnect True]"

text \<open>
  The button of a list item. \<^verbatim>\<open>App\<close> passes \<^verbatim>\<open>handleDisconnect\<close> to the item of the
  connected device and \<^verbatim>\<open>switchToDevice\<close> to every other item, and passes
  \<^verbatim>\<open>isConnecting && connectedDevice?.id === item.id\<close> as the item's \<^verbatim>\<open>isConnecting\<close>;
  \<^verbatim>\<open>DeviceItem\<close> calls the handler only when that flag is false.
\<close>

definition isConnectedItem :: "hook_state \<Rightarrow> string \<Rightarrow> bool" where
  "isConnectedItem r itemId =
     (case connectedDevice r of None \<Rightarrow> False | Some d \<Rightarrow> dev_id d = itemId)"

definition onPress :: "hook_state \<Rightarrow> string \<Rightarrow> bool \<Rightarrow> connect_outcome \<Rightarrow> action list" where
  "onPress r itemId cancelled out =
     (if isConnecting r \<and> isConnectedItem r itemId then []
      else if isConnectedItem r itemId then handleDisconnect r itemId cancelled
      else switchToDevice r itemId cancelled out)"

text \<open>The subscription of the effect: the listener registered with
  \<^verbatim>\<open>onDeviceDisconnected\<close> for the connected device.\<close>

definition onDeviceDisconnected ::
    "hook_state \<Rightarrow> string option \<Rightarrow> device option \<Rightarrow> bool \<Rightarrow> action list" where
  "onDeviceDisconnected r error dev cancelled =
     (case error of
        Some e \<Rightarrow> [ConsoleError]
      | None \<Rightarrow> (case dev of None \<Rightarrow> [] | Some d \<Rightarrow> handleDisconnect r (dev_id d) cancelled))"

section \<open>Timers\<close>

text \<open>
  When the oldest pending timer fires it leaves the queue and its callback runs; the
  outcome of the connection attempt it makes is given. All timers of the hook have the
  same delay, so they fire in the order in which they were set.
\<close>

definition timerCallback :: "hook_state \<Rightarrow> connect_outcome \<Rightarrow> action list" where
  "timerCallback s out =
     (case timers s of
        [] \<Rightarrow> []
      | (ms, ConnectTask deviceId attempts) # rest \<Rightarrow>
          TimerFires # connectToDevice deviceId attempts out)"

text \<open>The timers fire one after the other, as long as one is pending, each attempt with
  the next outcome of the list; the result is what was done, and the state reached.\<close>

fun fireTimers :: "connect_outcome list \<Rightarrow> hook_state \<Rightarrow> action list \<times> hook_state" where
  "fireTimers [] s = ([], s)"
| "fireTimers (out # outs) s =
     (if timers s = [] then ([], s)
      else (let acts = timerCallback s out;
                rest = fireTimers outs (run acts s)
            in (acts @ fst rest, snd rest)))"

definition failed :: "connect_outcome \<Rightarrow> bool" where
  "failed out = (case out of Connected dev so \<Rightarrow> False | _ \<Rightarrow> True)"

definition isBleConnect :: "action \<Rightarrow> bool" where
  "isBleConnect a = (case a of BleConnect i \<Rightarrow> True | _ \<Rightarrow> False)"

definition isBleDiscover :: "action \<Rightarrow> bool" where
  "isBleDiscover a = (case a of BleDiscover \<Rightarrow> True | _ \<Rightarrow> False)"



section \<open>Battery level\<close>

text \<open>
  \<^verbatim>\<open>parseInt(string, radix)\<close> of ECMAScript, for a radix that is a natural number: leading
  white space is skipped (here the ASCII white space: a \<open>char\<close> is a byte), then a sign,
  then, for radix 16 or 0, a prefix \<^verbatim>\<open>0x\<close>; the longest run of digits of the radix is
  read, and the result is \<^verbatim>\<open>NaN\<close> when that run is empty. A JavaScript number is
  modelled by the integer it denotes; JavaScript stores the nearest double, which is the
  same number as long as its magnitude is below \<open>2 ^ 53\<close> and is never zero for an
  integer that is not.
\<close>

datatype js_number = NaN | Num int

definition isWhiteSpace :: "char \<Rightarrow> bool" where
  "isWhiteSpace c = (of_char c \<in> {9, 10, 11, 12, 13, 32 :: nat})"

definition digitValue :: "char \<Rightarrow> nat option" where
  "digitValue c =
     (let n = of_char c :: nat in
      if 48 \<le> n \<and> n \<le> 57 then Some (n - 48)
      else if 97 \<le> n \<and> n \<le> 122 then Some (n - 87)
      else if 65 \<le> n \<and> n \<le> 90 then Some (n - 55)
      else None)"

definition isDigitOf :: "nat \<Rightarrow> char \<Rightarrow> bool" where
  "isDigitOf R c = (case digitValue c of None \<Rightarrow> False | Some d \<Rightarrow> d < R)"

fun digitsValue :: "nat \<Rightarrow> nat \<Rightarrow> string \<Rightarrow> nat" where
  "digitsValue R acc [] = acc"
| "digitsValue R acc (c # cs) =
     (case digitValue c of None \<Rightarrow> acc | Some d \<Rightarrow> digitsValue R (R * acc + d) cs)"

definition parseInt :: "string \<Rightarrow> nat \<Rightarrow> js_number" where
  "parseInt str radix =
     (let s = dropWhile isWhiteSpace str;
          negative = (case s of [] \<Rightarrow> False | c # cs \<Rightarrow> c = CHR ''-'');
          s1 = (case s of [] \<Rightarrow> s
                | c # cs \<Rightarrow> if c = CHR ''+'' \<or> c = CHR ''-'' then cs else s);
          hasPrefix = ((radix = 0 \<or> radix = 16) \<and>
             (case s1 of a # b # cs \<Rightarrow> a = CHR ''0'' \<and> (b = CHR ''x'' \<or> b = CHR ''X'')
              | _ \<Rightarrow> False));
          R = (if radix = 0 then (if hasPrefix then 16 else 10) else radix);
          s2 = (if hasPrefix then drop 2 s1 else s1);
          z = takeWhile (isDigitOf R) s2
      in if R < 2 \<or> 36 < R then NaN
         else if z = [] then NaN
         else Num ((if negative then - 1 else 1) * int (digitsValue R 0 z)))"

text \<open>\<^verbatim>\<open>getBatteryLevel\<close> of \<^verbatim>\<open>App\<close>; \<open>None\<close> is \<^verbatim>\<open>undefined\<close>. An array is truthy
  even when empty; a string is truthy when it is not empty.\<close>

definition getBatteryLevel :: "device_details option \<Rightarrow> js_number option" where
  "getBatteryLevel dd =
     (case dd of
        None \<Rightarrow> None
      | Some details \<Rightarrow>
          (case characteristics details of
             None \<Rightarrow> None
           | Some byService \<Rightarrow>
               (case byService ''180F'' of
                  None \<Rightarrow> None
                | Some batteryCharacteristics \<Rightarrow>
                    (case List.find (\<lambda>c. char_uuid c = ''2A19'') batteryCharacteristics of
                       None \<Rightarrow> None
                     | Some batteryCharacteristic \<Rightarrow>
                         (case char_value batteryCharacteristic of
                            None \<Rightarrow> None
                          | Some v \<Rightarrow> if v = [] then None else Some (parseInt v 16))))))"

text \<open>The \<^verbatim>\<open>batteryLevel\<close> property that \<^verbatim>\<open>renderItem\<close> gives to the item of a device.\<close>

definition batteryLevelProp :: "hook_state \<Rightarrow> device \<Rightarrow> js_number option" where
  "batteryLevelProp r item =
     (if isConnectedItem r (dev_id item) then getBatteryLevel (deviceDetails r) else None)"

fun decimalDigits :: "nat \<Rightarrow> string" where
  "decimalDigits n =
     (if n < 10 then [''0123456789'' ! n]
      else decimalDigits (n div 10) @ [''0123456789'' ! (n mod 10)])"

definition numberToString :: "js_number \<Rightarrow> string" where
  "numberToString x =
     (case x of
        NaN \<Rightarrow> ''NaN''
      | Num n \<Rightarrow> if n < 0 then CHR ''-'' # decimalDigits (nat (- n)) else decimalDigits (nat n))"

text \<open>The text after \<^verbatim>\<open>Battery:\<close> in \<^verbatim>\<open>DeviceItem\<close>:
  \<^verbatim>\<open>batteryLevel ? `${batteryLevel}%` : 'NA'\<close>. The numbers \<open>0\<close> and \<^verbatim>\<open>NaN\<close> are falsy.\<close>

definition batteryText :: "js_number option \<Rightarrow> string" where
  "batteryText batteryLevel =
     (case batteryLevel of
        None \<Rightarrow> ''NA''
      | Some x \<Rightarrow> if x = NaN \<or> x = Num 0 then ''NA'' else numberToString x @ ''%'')"

section \<open>Distance estimate\<close>

text \<open>
  \<^verbatim>\<open>calculateDistance\<close> of \<^verbatim>\<open>DeviceItem\<close>, over the real numbers: the rounding of
  double-precision arithmetic is not modelled. The result \<open>Metres x\<close> is the string made
  of \<open>x\<close>, printed with two decimals, followed by \<^verbatim>\<open>" m"\<close>; \<open>x\<close> is already rounded to
  two decimals, as \<^verbatim>\<open>toFixed(2)\<close> does. A division of the negative \<open>rssi\<close> by a
  \<open>txPower\<close> of zero is \<^verbatim>\<open>-Infinity\<close> in JavaScript, which is below 1 and whose tenth
  power prints as \<^verbatim>\<open>Infinity\<close>: that is \<open>InfinityMetres\<close>.
\<close>

datatype distance_text = Unknown | Metres real | InfinityMetres

definition toFixed2 :: "real \<Rightarrow> real" where
  "toFixed2 x = of_int (round (x * 100)) / 100"

definition defaultTxPower :: real where
  "defaultTxPower = - 59"

definition calculateDistance :: "real option \<Rightarrow> real option \<Rightarrow> distance_text" where
  "calculateDistance rssi txPower =
     (case rssi of
        None \<Rightarrow> Unknown
      | Some r \<Rightarrow>
          if r = 0 then Unknown
          else
            (let actualTxPower = (case txPower of None \<Rightarrow> defaultTxPower | Some t \<Rightarrow> t)
             in if r < - 100 \<or> r > 0 then Unknown
                else if actualTxPower = 0 then InfinityMetres
                else
                  (let ratio = r / actualTxPower
                   in if ratio < 1 then Metres (toFixed2 (ratio ^ 10))
                      else
                        (let distance = toFixed2 (0.89976 * ratio powr 7.7095 + 0.111)
                         in if distance > 1000 then Unknown else Metres distance))))"

section \<open>Example values\<close>

definition band :: device where
  "band = \<lparr>dev_id = ''AA:01'', dev_name = Some ''Band'', dev_rssi = Some (- 60),
     dev_txPowerLevel = None\<rparr>"

definition band_later :: device where
  "band_later = \<lparr>dev_id = ''AA:01'', dev_name = Some ''Band 2'', dev_rssi = Some (- 72),
     dev_txPowerLevel = Some 4\<rparr>"

definition tag :: device where
  "tag = \<lparr>dev_id = ''CC:03'', dev_name = Some ''Tag'', dev_rssi = Some (- 80),
     dev_txPowerLevel = Some 4\<rparr>"

definition nameless :: device where
  "nameless = \<lparr>dev_id = ''BB:02'', dev_name = None, dev_rssi = Some (- 50),
     dev_txPowerLevel = None\<rparr>"

definition example_scan :: "(string option \<times> device option) list" where
  "example_scan =
     [(None, Some band), (Some ''scan failed'', None), (None, Some nameless),
      (None, Some band_later), (None, Some tag), (None, None)]"

text \<open>What the detail held by the hook lists under a service UUID.\<close>

definition detailCharacteristics :: "hook_state \<Rightarrow> string \<Rightarrow> characteristic list option" where
  "detailCharacteristics s u =
     (case deviceDetails s of
        None \<Rightarrow> None
      | Some details \<Rightarrow> (case characteristics details of None \<Rightarrow> None | Some m \<Rightarrow> m u))"

definition level :: characteristic where
  "level = \<lparr>char_uuid = ''2A19'', char_value = Some ''64''\<rparr>"

definition battery :: service where
  "battery = \<lparr>svc_uuid = ''180F'', svc_characteristics = Some [level]\<rparr>"

definition battery_unreadable :: service where
  "battery_unreadable = \<lparr>svc_uuid = ''180F'', svc_characteristics = None\<rparr>"

definition heart_unreadable :: service where
  "heart_unreadable = \<lparr>svc_uuid = ''180D'', svc_characteristics = None\<rparr>"

text \<open>A detail whose battery service \<open>180F\<close> has the given characteristics.\<close>

definition details_with :: "characteristic list \<Rightarrow> device_details" where
  "details_with cs = \<lparr>services = [battery], characteristics = Some [''180F'' \<mapsto> cs]\<rparr>"

text \<open>A render in which \<open>band\<close> is connected and its battery service has the given
  characteristics.\<close>

definition band_connected :: "characteristic list \<Rightarrow> hook_state" where
  "band_connected cs = initial_state\<lparr>devices := [band, tag], connectedDevice := Some band,
     deviceDetails := Some (details_with cs)\<rparr>"

text \<open>
  A session: from the first render a scan is started and \<open>example_scan\<close> is delivered;
  the button of \<open>band\<close> is then pressed in the render that shows the result, and the
  connection succeeds. \<open>band_session\<close> is the state, and the render, that follows.
\<close>

definition after_scan :: hook_state where
  "after_scan = advertiseAll example_scan (run scanDevices initial_state)"

definition band_session :: hook_state where
  "band_session =
     run (onPress after_scan (dev_id band) True (Connected band (ServicesOk [battery] [battery])))
       after_scan"


section \<open>Scanning: properties\<close>

lemma run_append: "run (xs @ ys) s = run ys (run xs s)"
  by (induction xs arbitrary: s) simp_all

text \<open>
  C5. Whatever the state before, \<^verbatim>\<open>scanDevices\<close> performs four actions, of which the
  last is the call of \<^verbatim>\<open>startDeviceScan\<close>; in the state reached after the first three,
  that is before the manager starts to listen, the registry is empty and there is neither
  a connected device nor a device detail; the call of \<^verbatim>\<open>startDeviceScan\<close> leaves them so.
\<close>

theorem scanDevices_clears_then_listens:
  "length scanDevices = 4 \<and> scanDevices ! 3 = StartDeviceScan
   \<and> StartDeviceScan \<notin> set (take 3 scanDevices)
   \<and> devices (run (take 3 scanDevices) s) = []
   \<and> connectedDevice (run (take 3 scanDevices) s) = None
   \<and> deviceDetails (run (take 3 scanDevices) s) = None
   \<and> scanning (run (take 3 scanDevices) s) = scanning s
   \<and> devices (run scanDevices s) = []
   \<and> connectedDevice (run scanDevices s) = None
   \<and> deviceDetails (run scanDevices s) = None
   \<and> scanning (run scanDevices s)"
  by (simp add: scanDevices_def)

lemma findIndexFrom_found:
  "0 \<le> i \<Longrightarrow> (findIndexFrom i P xs > - 1) = (\<exists>x\<in>set xs. P x)"
  by (induction xs arbitrary: i) auto

lemma isDuplicate_iff: "isDuplicate devs d \<longleftrightarrow> dev_id d \<in> dev_id ` set devs"
  by (auto simp: isDuplicate_def findIndex_def findIndexFrom_found)

lemma advertise_scanning: "scanning (advertise s ev) = scanning s"
  by (auto simp: advertise_def scanListener_def split: option.splits prod.splits)

lemma advertiseAll_snoc: "advertiseAll (evs @ [ev]) s = advertise (advertiseAll evs s) ev"
  by (simp add: advertiseAll_def)

lemma advertiseAll_scanning: "scanning (advertiseAll evs s) = scanning s"
  by (induction evs rule: rev_induct) (simp_all add: advertiseAll_snoc advertise_scanning advertiseAll_def)

lemma advertised_snoc: "advertised (evs @ [ev]) = advertised evs @ advertised [ev]"
  by (simp add: advertised_def)

text \<open>One advertisement: the registry grows by the named devices of the event whose
  identifier is new.\<close>

lemma advertise_devices:
  "scanning s \<Longrightarrow> devices (advertise s ev) =
     devices s @ filter (\<lambda>d. dev_id d \<notin> dev_id ` set (devices s)) (advertised [ev])"
  by (cases ev) (auto simp: advertise_def scanListener_def isDuplicate_iff advertised_def
       split: option.splits)

lemma advertised_single: "advertised [ev] = [] \<or> (\<exists>d. advertised [ev] = [d] \<and> truthy (dev_name d))"
  by (cases ev) (auto simp: advertised_def split: option.splits)

lemma find_snoc:
  "List.find P (xs @ [x]) =
     (case List.find P xs of Some y \<Rightarrow> Some y | None \<Rightarrow> if P x then Some x else None)"
  by (induction xs) auto

lemma registry_ids:
  assumes "scanning s" "devices s = []"
  shows "dev_id ` set (devices (advertiseAll evs s)) = dev_id ` set (advertised evs)"
proof (induction evs rule: rev_induct)
  case Nil
  show ?case using assms by (simp add: advertiseAll_def advertised_def)
next
  case (snoc ev evs)
  have sc: "scanning (advertiseAll evs s)" using assms by (simp add: advertiseAll_scanning)
  show ?case
    using snoc advertised_single [of ev]
    by (auto simp: advertiseAll_snoc advertise_devices [OF sc] advertised_snoc)
qed

lemma registry_distinct:
  assumes "scanning s" "devices s = []"
  shows "distinct (map dev_id (devices (advertiseAll evs s)))"
proof (induction evs rule: rev_induct)
  case Nil
  show ?case using assms by (simp add: advertiseAll_def)
next
  case (snoc ev evs)
  have sc: "scanning (advertiseAll evs s)" using assms by (simp add: advertiseAll_scanning)
  from advertised_single [of ev] show ?case
  proof
    assume "advertised [ev] = []"
    with snoc show ?thesis by (simp add: advertiseAll_snoc advertise_devices [OF sc])
  next
    assume "\<exists>d. advertised [ev] = [d] \<and> truthy (dev_name d)"
    then obtain d where d: "advertised [ev] = [d]" by blast
    with snoc show ?thesis
      by (cases "dev_id d \<in> dev_id ` set (devices (advertiseAll evs s))")
         (simp_all add: advertiseAll_snoc advertise_devices [OF sc])
  qed
qed

lemma registry_named:
  assumes "scanning s" "devices s = []"
  shows "d \<in> set (devices (advertiseAll evs s)) \<Longrightarrow> truthy (dev_name d)"
proof (induction evs arbitrary: d rule: rev_induct)
  case Nil
  then show ?case using assms by (simp add: advertiseAll_def)
next
  case (snoc ev evs)
  have sc: "scanning (advertiseAll evs s)" using assms by (simp add: advertiseAll_scanning)
  show ?case
    using snoc advertised_single [of ev]
    by (auto simp: advertiseAll_snoc advertise_devices [OF sc] split: if_splits)
qed

lemma registry_subseq:
  assumes "scanning s" "devices s = []"
  shows "subseq (devices (advertiseAll evs s)) (advertised evs)"
proof (induction evs rule: rev_induct)
  case Nil
  show ?case using assms by (simp add: advertiseAll_def)
next
  case (snoc ev evs)
  have sc: "scanning (advertiseAll evs s)" using assms by (simp add: advertiseAll_scanning)
  have "subseq (filter (\<lambda>d. dev_id d \<notin> dev_id ` set (devices (advertiseAll evs s))) (advertised [ev]))
          (advertised [ev])"
    by simp
  with snoc show ?case
    unfolding advertiseAll_snoc advertise_devices [OF sc] advertised_snoc
    by (rule list_emb_append_mono)
qed

lemma registry_order:
  assumes "scanning s" "devices s = []"
  shows "map dev_id (devices (advertiseAll evs s)) = rev (remdups (rev (map dev_id (advertised evs))))"
proof (induction evs rule: rev_induct)
  case Nil
  show ?case using assms by (simp add: advertiseAll_def advertised_def)
next
  case (snoc ev evs)
  have sc: "scanning (advertiseAll evs s)" using assms by (simp add: advertiseAll_scanning)
  have ids: "dev_id ` set (devices (advertiseAll evs s)) = dev_id ` set (advertised evs)"
    using assms by (rule registry_ids)
  show ?case
    using snoc advertised_single [of ev]
    by (auto simp: advertiseAll_snoc advertise_devices [OF sc] advertised_snoc ids)
qed

lemma registry_first_seen:
  assumes "scanning s" "devices s = []"
  shows "List.find (\<lambda>d. dev_id d = i) (devices (advertiseAll evs s))
         = List.find (\<lambda>d. dev_id d = i) (advertised evs)"
proof (induction evs rule: rev_induct)
  case Nil
  show ?case using assms by (simp add: advertiseAll_def advertised_def)
next
  case (snoc ev evs)
  have sc: "scanning (advertiseAll evs s)" using assms by (simp add: advertiseAll_scanning)
  have ids: "dev_id ` set (devices (advertiseAll evs s)) = dev_id ` set (advertised evs)"
    using assms by (rule registry_ids)
  from advertised_single [of ev] show ?case
  proof
    assume "advertised [ev] = []"
    with snoc show ?thesis
      by (simp add: advertiseAll_snoc advertise_devices [OF sc] advertised_snoc)
  next
    assume "\<exists>d. advertised [ev] = [d] \<and> truthy (dev_name d)"
    then obtain d where d: "advertised [ev] = [d]" by blast
    show ?thesis
    proof (cases "dev_id d \<in> dev_id ` set (advertised evs)")
      case True
      then have "i = dev_id d \<Longrightarrow> List.find (\<lambda>d. dev_id d = i) (advertised evs) \<noteq> None"
        by (auto simp: find_None_iff)
      with True snoc d show ?thesis
        by (auto simp: advertiseAll_snoc advertise_devices [OF sc] advertised_snoc ids find_snoc
            split: option.splits)
    next
      case False
      with snoc d show ?thesis
        by (simp add: advertiseAll_snoc advertise_devices [OF sc] advertised_snoc ids find_snoc)
    qed
  qed
qed

text \<open>
  C4. A scan is started by \<^verbatim>\<open>scanDevices\<close> in any state, and any sequence of events is
  then delivered to its listener. In the registry that results no two entries have the
  same identifier and every entry has a (truthy) name; the registry is a subsequence of
  the named advertisements, so its entries are advertisements as they were delivered and
  stand in the order of delivery; its identifiers are those of the named advertisements,
  each at the place of its first occurrence; and the entry found for an identifier is the
  first named advertisement with that identifier: a later one neither replaces it nor is
  merged into it.
\<close>

theorem registry_after_scan:
  "(let reg = devices (advertiseAll evs (run scanDevices s)) in
     distinct (map dev_id reg)
     \<and> (\<forall>d\<in>set reg. truthy (dev_name d))
     \<and> subseq reg (advertised evs)
     \<and> map dev_id reg = rev (remdups (rev (map dev_id (advertised evs))))
     \<and> (\<forall>i. List.find (\<lambda>d. dev_id d = i) reg
              = List.find (\<lambda>d. dev_id d = i) (advertised evs)))"
proof -
  have sc: "scanning (run scanDevices s)" and em: "devices (run scanDevices s) = []"
    by (simp_all add: scanDevices_def)
  show ?thesis
    unfolding Let_def
    using registry_distinct [OF sc em] registry_named [OF sc em] registry_subseq [OF sc em]
      registry_order [OF sc em] registry_first_seen [OF sc em]
    by blast
qed

lemma example_scan_registry:
  "devices (advertiseAll example_scan (run scanDevices initial_state)) = [band, tag]"
  by (simp add: example_scan_def advertiseAll_def advertise_def scanListener_def
      scanDevices_def initial_state_def isDuplicate_def findIndex_def truthy_def
      band_def band_later_def tag_def nameless_def)

theorem registry_after_scan_witness:
  "devices (advertiseAll example_scan (run scanDevices initial_state)) = [band, tag]
   \<and> band \<in> set (devices (advertiseAll example_scan (run scanDevices initial_state)))
   \<and> truthy (dev_name band)
   \<and> List.find (\<lambda>d. dev_id d = ''AA:01'')
        (devices (advertiseAll example_scan (run scanDevices initial_state))) = Some band"
  using registry_after_scan [of example_scan initial_state]
  unfolding Let_def example_scan_registry
  by (simp add: band_def tag_def)

section \<open>Detail fetch: properties\<close>

lemma run_getServices:
  "deviceDetails (run (getServicesAndCharacteristics (ServicesOk svcs settled)) s)
     = Some \<lparr>services = svcs, characteristics = Some (characteristicsByServiceUUID settled)\<rparr>"
  by (simp add: getServicesAndCharacteristics_def run_append)

lemma foldl_settle_other:
  "u \<notin> svc_uuid ` set xs \<Longrightarrow> foldl settle m xs u = m u"
  by (induction xs arbitrary: m) (auto simp: settle_def split: option.splits)

lemma settle_same:
  "settle m x (svc_uuid x) = Some (case svc_characteristics x of None \<Rightarrow> [] | Some cs \<Rightarrow> cs)"
  by (simp add: settle_def split: option.splits)

lemma foldl_settle_member:
  "distinct (map svc_uuid xs) \<Longrightarrow> svc \<in> set xs \<Longrightarrow>
     foldl settle m xs (svc_uuid svc)
       = Some (case svc_characteristics svc of None \<Rightarrow> [] | Some cs \<Rightarrow> cs)"
proof (induction xs arbitrary: m)
  case Nil
  then show ?case by simp
next
  case (Cons x xs)
  show ?case
  proof (cases "svc = x")
    case True
    with Cons.prems have "svc_uuid svc \<notin> svc_uuid ` set xs" by auto
    then have "foldl settle (settle m x) xs (svc_uuid svc) = settle m x (svc_uuid svc)"
      by (rule foldl_settle_other)
    with True show ?thesis by (simp add: settle_same)
  next
    case False
    with Cons show ?thesis by simp
  qed
qed

text \<open>
  C6, for a device whose services have pairwise distinct UUIDs. Whatever the order in
  which the requests settle, the fetch sets a detail that lists all services; under the
  UUID of a service whose request was rejected it holds the empty list, under the UUID
  of every service whose request resolved it holds the characteristics found, and it
  holds nothing under any other key.
\<close>

theorem detail_fetch_isolates_failures:
  assumes "distinct (map svc_uuid svcs)" and "mset settled = mset svcs"
  shows "(let s' = run (getServicesAndCharacteristics (ServicesOk svcs settled)) s in
           map_option services (deviceDetails s') = Some svcs
           \<and> (\<forall>svc\<in>set svcs. detailCharacteristics s' (svc_uuid svc)
                 = Some (case svc_characteristics svc of None \<Rightarrow> [] | Some cs \<Rightarrow> cs))
           \<and> (\<forall>u. u \<in> svc_uuid ` set svcs \<or> detailCharacteristics s' u = None))"
proof -
  let ?s' = "run (getServicesAndCharacteristics (ServicesOk svcs settled)) s"
  have "mset (map svc_uuid settled) = mset (map svc_uuid svcs)"
    using assms(2) by simp
  then have d: "distinct (map svc_uuid settled)"
    using assms(1) by (metis mset_eq_imp_distinct_iff)
  have st: "set settled = set svcs"
    using assms(2) by (rule mset_eq_setD)
  have dc: "detailCharacteristics ?s' u = foldl settle Map.empty settled u" for u
    by (simp add: run_getServices detailCharacteristics_def characteristicsByServiceUUID_def)
  have 1: "map_option services (deviceDetails ?s') = Some svcs"
    by (simp add: run_getServices)
  have 2: "detailCharacteristics ?s' (svc_uuid svc)
             = Some (case svc_characteristics svc of None \<Rightarrow> [] | Some cs \<Rightarrow> cs)"
    if "svc \<in> set svcs" for svc
    using that foldl_settle_member [OF d, of svc Map.empty] by (simp add: dc st)
  have 3: "u \<in> svc_uuid ` set svcs \<or> detailCharacteristics ?s' u = None" for u
  proof (cases "u \<in> svc_uuid ` set svcs")
    case True
    then show ?thesis by simp
  next
    case False
    then have "foldl settle Map.empty settled u = Map.empty u"
      by (intro foldl_settle_other) (simp add: st)
    then show ?thesis by (simp add: dc)
  qed
  show ?thesis
    unfolding Let_def using 1 2 3 by blast
qed

theorem detail_fetch_isolates_failures_witness:
  "distinct (map svc_uuid [battery, heart_unreadable])
   \<and> mset [heart_unreadable, battery] = mset [battery, heart_unreadable]
   \<and> heart_unreadable \<in> set [battery, heart_unreadable]
   \<and> detailCharacteristics
        (run (getServicesAndCharacteristics
               (ServicesOk [battery, heart_unreadable] [heart_unreadable, battery])) initial_state)
        (svc_uuid heart_unreadable) = Some []
   \<and> detailCharacteristics
        (run (getServicesAndCharacteristics
               (ServicesOk [battery, heart_unreadable] [heart_unreadable, battery])) initial_state)
        (svc_uuid battery) = Some [level]"
proof -
  have d: "distinct (map svc_uuid [battery, heart_unreadable])"
    by (simp add: battery_def heart_unreadable_def)
  have m: "mset [heart_unreadable, battery] = mset [battery, heart_unreadable]"
    by simp
  show ?thesis
    using d m detail_fetch_isolates_failures [OF d m, of initial_state]
    by (simp add: Let_def battery_def heart_unreadable_def)
qed

text \<open>
  C6 as stated fails when two services have the same UUID, one readable and one not:
  the object has one entry per UUID, written by whichever request settles last. If the
  rejected one settles last, the readable service does not map to its characteristics;
  if the readable one settles last, the rejected service does not map to the empty list.
\<close>

theorem detail_fetch_shared_uuid_counterexample:
  "svc_uuid battery = svc_uuid battery_unreadable
   \<and> svc_characteristics battery = Some [level]
   \<and> svc_characteristics battery_unreadable = None
   \<and> detailCharacteristics
        (run (getServicesAndCharacteristics
               (ServicesOk [battery, battery_unreadable] [battery, battery_unreadable])) initial_state)
        (svc_uuid battery) = Some []
   \<and> detailCharacteristics
        (run (getServicesAndCharacteristics
               (ServicesOk [battery, battery_unreadable] [battery_unreadable, battery])) initial_state)
        (svc_uuid battery_unreadable) = Some [level]"
  by (simp add: run_getServices detailCharacteristics_def characteristicsByServiceUUID_def
      settle_def battery_def battery_unreadable_def)


section \<open>Battery level: properties\<close>

text \<open>
  C7. \<^verbatim>\<open>getBatteryLevel\<close> is \<^verbatim>\<open>undefined\<close> when there is no detail, when the detail
  has no characteristic map, when the map has no entry \<open>180F\<close>, when that entry has no
  characteristic \<open>2A19\<close>, and when the first such characteristic has no value or an
  empty one. Otherwise it is \<^verbatim>\<open>parseInt(value, 16)\<close> of that value, which for the value
  \<open>64\<close> is 100. No case raises an error.
\<close>

theorem getBatteryLevel_hex:
  "getBatteryLevel None = None
   \<and> getBatteryLevel (Some \<lparr>services = svcs, characteristics = None\<rparr>) = None
   \<and> (byService ''180F'' = None \<longrightarrow>
        getBatteryLevel (Some \<lparr>services = svcs, characteristics = Some byService\<rparr>) = None)
   \<and> (byService ''180F'' = Some cs \<and> List.find (\<lambda>c. char_uuid c = ''2A19'') cs = None \<longrightarrow>
        getBatteryLevel (Some \<lparr>services = svcs, characteristics = Some byService\<rparr>) = None)
   \<and> (byService ''180F'' = Some cs \<and> List.find (\<lambda>c. char_uuid c = ''2A19'') cs = Some c
        \<and> (char_value c = None \<or> char_value c = Some []) \<longrightarrow>
        getBatteryLevel (Some \<lparr>services = svcs, characteristics = Some byService\<rparr>) = None)
   \<and> (byService ''180F'' = Some cs \<and> List.find (\<lambda>c. char_uuid c = ''2A19'') cs = Some c
        \<and> char_value c = Some v \<and> v \<noteq> [] \<longrightarrow>
        getBatteryLevel (Some \<lparr>services = svcs, characteristics = Some byService\<rparr>)
          = Some (parseInt v 16))
   \<and> (byService ''180F'' = Some cs \<and> List.find (\<lambda>c. char_uuid c = ''2A19'') cs = Some c
        \<and> char_value c = Some ''64'' \<longrightarrow>
        getBatteryLevel (Some \<lparr>services = svcs, characteristics = Some byService\<rparr>)
          = Some (Num 100))"
proof -
  have "parseInt ''64'' 16 = Num 100"
    by (simp add: parseInt_def isWhiteSpace_def isDigitOf_def digitValue_def)
  then show ?thesis
    by (auto simp: getBatteryLevel_def)
qed


theorem getBatteryLevel_hex_witness:
  "getBatteryLevel (Some (details_with [level])) = Some (Num 100)
   \<and> getBatteryLevel (Some (details_with [\<lparr>char_uuid = ''2A19'', char_value = Some ''1f''\<rparr>]))
        = Some (Num 31)
   \<and> getBatteryLevel (Some (details_with [\<lparr>char_uuid = ''2A19'', char_value = None\<rparr>])) = None
   \<and> getBatteryLevel (Some (details_with [\<lparr>char_uuid = ''2A37'', char_value = Some ''64''\<rparr>]))
        = None
   \<and> getBatteryLevel (Some \<lparr>services = [], characteristics = Some Map.empty\<rparr>) = None"
proof -
  have p: "parseInt ''1f'' 16 = Num 31" "parseInt ''64'' 16 = Num 100"
    by (simp_all add: parseInt_def isWhiteSpace_def isDigitOf_def digitValue_def)
  show ?thesis
    using getBatteryLevel_hex [where svcs = "[battery]" and byService = "[''180F'' \<mapsto> [level]]"
        and cs = "[level]" and c = level and v = "''64''"]
      getBatteryLevel_hex [where svcs = "[battery]"
        and byService = "[''180F'' \<mapsto> [\<lparr>char_uuid = ''2A19'', char_value = Some ''1f''\<rparr>]]"
        and cs = "[\<lparr>char_uuid = ''2A19'', char_value = Some ''1f''\<rparr>]"
        and c = "\<lparr>char_uuid = ''2A19'', char_value = Some ''1f''\<rparr>" and v = "''1f''"]
      getBatteryLevel_hex [where svcs = "[battery]"
        and byService = "[''180F'' \<mapsto> [\<lparr>char_uuid = ''2A19'', char_value = None\<rparr>]]"
        and cs = "[\<lparr>char_uuid = ''2A19'', char_value = None\<rparr>]"
        and c = "\<lparr>char_uuid = ''2A19'', char_value = None\<rparr>" and v = "''64''"]
      getBatteryLevel_hex [where svcs = "[battery]"
        and byService = "[''180F'' \<mapsto> [\<lparr>char_uuid = ''2A37'', char_value = Some ''64''\<rparr>]]"
        and cs = "[\<lparr>char_uuid = ''2A37'', char_value = Some ''64''\<rparr>]"
        and c = level and v = "''64''"]
      getBatteryLevel_hex [where svcs = "[]" and byService = Map.empty and cs = "[]"
        and c = level and v = "''64''"]
    by (simp add: details_with_def level_def p)
qed


text \<open>
  C9. When the item is that of the connected device and the value of its battery
  characteristic parses to 0, the battery level handed to the item is the number 0, and
  the item shows \<open>NA\<close>, as it does when no battery level is available.
\<close>

theorem battery_zero_renders_NA:
  assumes "isConnectedItem r (dev_id item)"
    and "deviceDetails r = Some \<lparr>services = svcs, characteristics = Some byService\<rparr>"
    and "byService ''180F'' = Some cs"
    and "List.find (\<lambda>c. char_uuid c = ''2A19'') cs = Some c"
    and "char_value c = Some v" and "v \<noteq> []"
    and "parseInt v 16 = Num 0"
  shows "batteryLevelProp r item = Some (Num 0)
         \<and> batteryText (batteryLevelProp r item) = ''NA''
         \<and> batteryText (batteryLevelProp r item) = batteryText None"
  using assms by (simp add: batteryLevelProp_def getBatteryLevel_def batteryText_def)

theorem battery_zero_renders_NA_witness:
  "batteryLevelProp (band_connected [\<lparr>char_uuid = ''2A19'', char_value = Some ''00''\<rparr>]) band
     = Some (Num 0)
   \<and> batteryText (batteryLevelProp
        (band_connected [\<lparr>char_uuid = ''2A19'', char_value = Some ''00''\<rparr>]) band) = ''NA''
   \<and> batteryText None = ''NA''
   \<and> batteryText (batteryLevelProp (band_connected [level]) band) = ''100%''"
proof -
  let ?c = "\<lparr>char_uuid = ''2A19'', char_value = Some ''00''\<rparr>"
  have 1: "isConnectedItem (band_connected [?c]) (dev_id band)"
    by (simp add: isConnectedItem_def band_connected_def initial_state_def)
  have 2: "deviceDetails (band_connected [?c])
             = Some \<lparr>services = [battery], characteristics = Some [''180F'' \<mapsto> [?c]]\<rparr>"
    by (simp add: band_connected_def initial_state_def details_with_def)
  have 3: "[''180F'' \<mapsto> [?c]] ''180F'' = Some [?c]" by simp
  have 4: "List.find (\<lambda>c. char_uuid c = ''2A19'') [?c] = Some ?c" by simp
  have 5: "char_value ?c = Some ''00''" by simp
  have 6: "''00'' \<noteq> []" by simp
  have 7: "parseInt ''00'' 16 = Num 0"
    by (simp add: parseInt_def isWhiteSpace_def isDigitOf_def digitValue_def)
  have 8: "parseInt ''64'' 16 = Num 100"
    by (simp add: parseInt_def isWhiteSpace_def isDigitOf_def digitValue_def)
  have 9: "decimalDigits 100 = ''100''" by code_simp
  have 10: "batteryText (batteryLevelProp (band_connected [level]) band) = ''100%''"
    by (simp add: batteryLevelProp_def isConnectedItem_def band_connected_def initial_state_def
        details_with_def getBatteryLevel_def level_def 8 batteryText_def numberToString_def 9
        del: decimalDigits.simps)
  show ?thesis
    using battery_zero_renders_NA [OF 1 2 3 4 5 6 7] 10 by (simp add: batteryText_def)
qed

section \<open>Distance estimate: properties\<close>

text \<open>
  C10. For an \<open>rssi\<close> of -80 and a \<open>txPower\<close> of 4 the ratio is -20, which is below 1:
  the branch that returns the tenth power of the ratio is taken, and it has no bound,
  so the text returned is a distance of 10240000000000 m.
\<close>

theorem calculateDistance_exceeds_1000:
  "calculateDistance (Some (- 80)) (Some 4) = Metres 10240000000000
   \<and> (1000 :: real) < 10240000000000"
  by (simp add: calculateDistance_def toFixed2_def)

text \<open>The rest of what C10 says holds: the four cases that yield \<open>Unknown\<close>, and the
  bound of 1000 in the branch of a ratio of 1 or more.\<close>

lemma calculateDistance_unknown:
  "calculateDistance None tx = Unknown"
  "calculateDistance (Some 0) tx = Unknown"
  "r < - 100 \<Longrightarrow> calculateDistance (Some r) tx = Unknown"
  "0 < r \<Longrightarrow> calculateDistance (Some r) tx = Unknown"
  by (simp_all add: calculateDistance_def Let_def)

lemma calculateDistance_far_branch:
  "calculateDistance (Some r) tx = Metres d \<Longrightarrow>
     1 \<le> r / (case tx of None \<Rightarrow> defaultTxPower | Some t \<Rightarrow> t) \<Longrightarrow> d \<le> 1000"
  by (auto simp: calculateDistance_def Let_def split: if_splits)


section \<open>Connecting: properties\<close>












lemma fireTimers_idle: "timers s = [] \<Longrightarrow> fireTimers outs s = ([], s)"
  by (cases outs) simp_all

lemma failed_cases: "failed out \<Longrightarrow> out = ConnectFails \<or> out = DiscoverFails"
  by (cases out) (simp_all add: failed_def)

text \<open>
  C3. No timer is pending, \<^verbatim>\<open>connectToDevice(deviceId)\<close> is called, and its attempt
  and every later one fails, at the connect or at the discovery (the list of outcomes
  has at least the two that are consumed). Then \<^verbatim>\<open>bleManager.connectToDevice\<close> is
  called exactly three times. Leaving aside the calls of the discovery, what happens is:
  an attempt that fails and sets a timer of 2000 ms for attempt 1, the timer firing, a
  second attempt that fails and sets a timer of 2000 ms for attempt 2, the timer firing,
  and a third attempt that fails and sets no timer. No timer is pending at the end, and
  the state is the one before the call with \<^verbatim>\<open>isConnecting\<close> false: there is no field
  that records the failure.
\<close>

theorem connect_gives_up_after_three_attempts:
  assumes "timers s = []" and "failed out" and "\<forall>x\<in>set outs. failed x"
    and "2 \<le> length outs"
  shows "(let first = connectToDevice deviceId 0 out;
              later = fireTimers outs (run first s);
              trace = first @ fst later;
              s' = snd later
          in filter isBleConnect trace = replicate 3 (BleConnect deviceId)
             \<and> filter (\<lambda>a. \<not> isBleDiscover a) trace
                 = [SetIsConnecting True, BleConnect deviceId, ConsoleError,
                    SetTimeout 2000 (ConnectTask deviceId 1), SetIsConnecting False,
                    TimerFires,
                    SetIsConnecting True, BleConnect deviceId, ConsoleError,
                    SetTimeout 2000 (ConnectTask deviceId 2), SetIsConnecting False,
                    TimerFires,
                    SetIsConnecting True, BleConnect deviceId, ConsoleError,
                    SetIsConnecting False]
             \<and> timers s' = []
             \<and> s' = s\<lparr>isConnecting := False\<rparr>)"
proof -
  from assms(4) obtain o1 o2 rest where outs: "outs = o1 # o2 # rest"
    by (cases outs; cases "tl outs") auto
  have f0: "out = ConnectFails \<or> out = DiscoverFails"
    using assms(2) by (rule failed_cases)
  have f1: "o1 = ConnectFails \<or> o1 = DiscoverFails"
    using assms(3) outs by (intro failed_cases) simp
  have f2: "o2 = ConnectFails \<or> o2 = DiscoverFails"
    using assms(3) outs by (intro failed_cases) simp
  have idle: "fireTimers rest t = ([], t)" if "timers t = []" for t
    using that by (rule fireTimers_idle)
  show ?thesis
    using f0 f1 f2 assms(1)
    by (auto simp: outs Let_def connectToDevice_def timerCallback_def MAX_RECONNECT_ATTEMPTS_def
        isBleConnect_def isBleDiscover_def idle numeral_3_eq_3)
qed

theorem connect_gives_up_after_three_attempts_witness:
  "timers initial_state = [] \<and> failed ConnectFails \<and> failed DiscoverFails
   \<and> 2 \<le> length [DiscoverFails, ConnectFails, ConnectFails]
   \<and> fst (fireTimers [DiscoverFails, ConnectFails, ConnectFails]
           (run (connectToDevice ''CC:03'' 0 ConnectFails) initial_state))
        = [TimerFires, SetIsConnecting True, BleConnect ''CC:03'', BleDiscover, ConsoleError,
           SetTimeout 2000 (ConnectTask ''CC:03'' 2), SetIsConnecting False,
           TimerFires, SetIsConnecting True, BleConnect ''CC:03'', ConsoleError,
           SetIsConnecting False]
   \<and> snd (fireTimers [DiscoverFails, ConnectFails, ConnectFails]
           (run (connectToDevice ''CC:03'' 0 ConnectFails) initial_state))
        = initial_state"
proof -
  have 1: "timers initial_state = []" by (simp add: initial_state_def)
  have 2: "failed ConnectFails" by (simp add: failed_def)
  have 3: "\<forall>x\<in>set [DiscoverFails, ConnectFails, ConnectFails]. failed x"
    by (simp add: failed_def)
  have 4: "2 \<le> length [DiscoverFails, ConnectFails, ConnectFails]" by simp
  have 5: "fst (fireTimers [DiscoverFails, ConnectFails, ConnectFails]
           (run (connectToDevice ''CC:03'' 0 ConnectFails) initial_state))
        = [TimerFires, SetIsConnecting True, BleConnect ''CC:03'', BleDiscover, ConsoleError,
           SetTimeout 2000 (ConnectTask ''CC:03'' 2), SetIsConnecting False,
           TimerFires, SetIsConnecting True, BleConnect ''CC:03'', ConsoleError,
           SetIsConnecting False]"
    by (simp add: Let_def connectToDevice_def timerCallback_def MAX_RECONNECT_ATTEMPTS_def
        initial_state_def)
  show ?thesis
    using connect_gives_up_after_three_attempts [OF 1 2 3 4, of "''CC:03''"] 1 2 3 5
    by (simp add: Let_def initial_state_def)
qed


section \<open>Disconnecting and switching: properties\<close>

lemma after_scan_fields:
  "devices after_scan = [band, tag]" "connectedDevice after_scan = None"
  "\<not> isConnecting after_scan" "shouldReconnect after_scan"
  "reconnectAttempts after_scan = 0" "timers after_scan = []" "scanning after_scan"
  by (simp_all add: after_scan_def example_scan_registry advertiseAll_scanning)
     (simp_all add: after_scan_def example_scan_def advertiseAll_def advertise_def
       scanListener_def scanDevices_def initial_state_def)

lemma band_session_fields:
  "devices band_session = [band, tag]" "connectedDevice band_session = Some band"
  "\<not> isConnecting band_session" "shouldReconnect band_session"
  "reconnectAttempts band_session = 0" "timers band_session = []"
  "\<not> scanning band_session"
  by (simp_all add: band_session_def onPress_def isConnectedItem_def after_scan_fields
      switchToDevice_def connectToDevice_def getServicesAndCharacteristics_def run_append)

text \<open>
  C1. In \<open>band_session\<close> the device \<open>band\<close> is connected, automatic reconnection is
  enabled and the counter is 0. The button of \<open>tag\<close> is pressed in that render, so
  \<^verbatim>\<open>switchToDevice\<close> runs with the constants of that render; the disconnection and the
  connection to \<open>tag\<close> succeed. The actions are, in order:
  \<^verbatim>\<open>setShouldReconnect(false)\<close>, the disconnection of \<open>band\<close>, the connection to
  \<open>tag\<close>, \<^verbatim>\<open>setShouldReconnect(true)\<close>, and \<open>tag\<close> is the connected device at the end.
  But the handler of the disconnection reads the \<^verbatim>\<open>shouldReconnect\<close> of its render, which
  is true: it increments the counter and sets a timer that reconnects to \<open>band\<close>. When
  that timer fires and the connection succeeds, \<open>band\<close> is the connected device again.
\<close>

theorem switchToDevice_schedules_reconnect:
  "connectedDevice band_session = Some band \<and> shouldReconnect band_session
   \<and> reconnectAttempts band_session = 0 \<and> timers band_session = []
   \<and> switchToDevice band_session (dev_id tag) True (Connected tag ServicesFail)
       = [SetShouldReconnect False,
          SetConnectedDevice None, SetDeviceDetails None, BleCancel (dev_id band),
          IncReconnectAttempts, SetTimeout 2000 (ConnectTask (dev_id band) 0),
          SetIsConnecting True, BleConnect (dev_id tag), BleDiscover,
          SetConnectedDevice (Some tag), StopDeviceScan, BleServices, ConsoleError,
          SetReconnectAttempts 0, SetIsConnecting False,
          SetShouldReconnect True]
   \<and> connectedDevice
         (run (switchToDevice band_session (dev_id tag) True (Connected tag ServicesFail))
            band_session) = Some tag
   \<and> timers
         (run (switchToDevice band_session (dev_id tag) True (Connected tag ServicesFail))
            band_session) = [(2000, ConnectTask (dev_id band) 0)]
   \<and> connectedDevice
         (snd (fireTimers [Connected band ServicesFail]
            (run (switchToDevice band_session (dev_id tag) True (Connected tag ServicesFail))
               band_session))) = Some band"
  by (simp add: band_session_fields switchToDevice_def handleDisconnect_def connectToDevice_def
      getServicesAndCharacteristics_def MAX_RECONNECT_ATTEMPTS_def timerCallback_def Let_def)

text \<open>The same in any render in which a device is connected, reconnection is enabled
  and the counter is below the maximum.\<close>

lemma switchToDevice_stale_flag:
  assumes "connectedDevice r = Some current" and "shouldReconnect r"
    and "reconnectAttempts r < MAX_RECONNECT_ATTEMPTS"
  shows "SetTimeout 2000 (ConnectTask (dev_id current) 0)
           \<in> set (switchToDevice r deviceId True out)"
  using assms by (simp add: switchToDevice_def handleDisconnect_def)


lemma run_getServices_state:
  "run (getServicesAndCharacteristics so) t
     = (case so of
          ServicesFail \<Rightarrow> t
        | ServicesOk svcs settled \<Rightarrow>
            t\<lparr>deviceDetails := Some \<lparr>services = svcs,
                 characteristics = Some (characteristicsByServiceUUID settled)\<rparr>\<rparr>)"
proof (cases so)
  case ServicesFail
  then show ?thesis by (simp add: getServicesAndCharacteristics_def)
next
  case (ServicesOk svcs settled)
  have a: "run (map (\<lambda>svc. BleCharacteristics (svc_uuid svc)) xs) u = u"
    for xs :: "service list" and u
    by (induction xs arbitrary: u) simp_all
  have b: "run (concat (map (\<lambda>svc. if svc_characteristics svc = None then [ConsoleError]
               else []) xs)) u = u"
    for xs :: "service list" and u
    by (induction xs arbitrary: u) simp_all
  show ?thesis using ServicesOk
    by (simp add: getServicesAndCharacteristics_def run_append a b)
qed

lemma reconnectAttempts_getServices:
  "reconnectAttempts (run (getServicesAndCharacteristics so) t) = reconnectAttempts t"
  by (cases so) (simp_all add: run_getServices_state)

lemma reconnectAttempts_handleDisconnect:
  "reconnectAttempts (run (handleDisconnect r deviceId cancelled) s)
     = (if cancelled \<and> shouldReconnect r \<and> reconnectAttempts r < MAX_RECONNECT_ATTEMPTS
        then reconnectAttempts s + 1 else reconnectAttempts s)"
  by (simp add: handleDisconnect_def)

text \<open>
  C2, as the code has it. The disconnect handler adds one to the counter exactly when
  the cancellation succeeds while, in the render of the handler, reconnection is enabled
  and the counter is below the maximum; otherwise it leaves the counter as it is. The
  listener for an unsolicited disconnect calls that handler, and so does the button of
  the connected item: the two kinds of disconnect are not told apart. A successful
  connection sets the counter to 0; a failed attempt, the start of a scan and an
  advertisement leave it as it is.
\<close>

theorem reconnectAttempts_updates:
  "reconnectAttempts (run (handleDisconnect r deviceId cancelled) s)
     = (if cancelled \<and> shouldReconnect r \<and> reconnectAttempts r < MAX_RECONNECT_ATTEMPTS
        then reconnectAttempts s + 1 else reconnectAttempts s)
   \<and> onDeviceDisconnected r None (Some dev) cancelled = handleDisconnect r (dev_id dev) cancelled
   \<and> reconnectAttempts (run (onDeviceDisconnected r (Some e) dev' cancelled) s)
       = reconnectAttempts s
   \<and> reconnectAttempts (run (onDeviceDisconnected r None None cancelled) s)
       = reconnectAttempts s
   \<and> (isConnectedItem r itemId \<and> \<not> isConnecting r \<longrightarrow>
        onPress r itemId cancelled out = handleDisconnect r itemId cancelled)
   \<and> reconnectAttempts (run (connectToDevice deviceId attempts (Connected dev so)) s) = 0
   \<and> reconnectAttempts (run (connectToDevice deviceId attempts ConnectFails) s)
       = reconnectAttempts s
   \<and> reconnectAttempts (run (connectToDevice deviceId attempts DiscoverFails) s)
       = reconnectAttempts s
   \<and> reconnectAttempts (run scanDevices s) = reconnectAttempts s
   \<and> reconnectAttempts (advertise s ev) = reconnectAttempts s"
proof -
  have adv: "reconnectAttempts (advertise s ev) = reconnectAttempts s"
    by (cases ev) (simp add: advertise_def scanListener_def split: option.splits)
  show ?thesis
    by (simp add: reconnectAttempts_handleDisconnect onDeviceDisconnected_def onPress_def
        connectToDevice_def run_append reconnectAttempts_getServices scanDevices_def adv)
qed

theorem reconnectAttempts_updates_witness:
  "isConnectedItem band_session (dev_id band) \<and> \<not> isConnecting band_session
   \<and> onPress band_session (dev_id band) True ConnectFails
       = handleDisconnect band_session (dev_id band) True
   \<and> reconnectAttempts (run (handleDisconnect band_session (dev_id band) False) band_session) = 0
   \<and> reconnectAttempts
        (snd (fireTimers [Connected band ServicesFail]
           (run (handleDisconnect band_session (dev_id band) True) band_session))) = 0"
proof -
  have 1: "isConnectedItem band_session (dev_id band)"
    by (simp add: isConnectedItem_def band_session_fields)
  have 2: "\<not> isConnecting band_session"
    by (simp add: band_session_fields)
  have 3: "reconnectAttempts
        (snd (fireTimers [Connected band ServicesFail]
           (run (handleDisconnect band_session (dev_id band) True) band_session))) = 0"
    by (simp add: handleDisconnect_def band_session_fields MAX_RECONNECT_ATTEMPTS_def
        timerCallback_def Let_def connectToDevice_def getServicesAndCharacteristics_def)
  show ?thesis
    using reconnectAttempts_updates [of band_session "dev_id band" False band_session band
        _ _ "dev_id band" ConnectFails]
      reconnectAttempts_updates [of band_session "dev_id band" True band_session band
        _ _ "dev_id band" ConnectFails]
      1 2 3
    by (simp add: band_session_fields)
qed

text \<open>
  C2 as stated fails: in \<open>band_session\<close> the user presses the button of the connected
  device, the disconnection succeeds, and the counter goes from 0 to 1 (and a
  reconnection is scheduled).
\<close>

theorem user_disconnect_increments_counterexample:
  "isConnectedItem band_session (dev_id band)
   \<and> reconnectAttempts band_session = 0
   \<and> reconnectAttempts
        (run (onPress band_session (dev_id band) True ConnectFails) band_session) = 1
   \<and> timers (run (onPress band_session (dev_id band) True ConnectFails) band_session)
       = [(2000, ConnectTask (dev_id band) 0)]"
  by (simp add: onPress_def isConnectedItem_def band_session_fields handleDisconnect_def
      MAX_RECONNECT_ATTEMPTS_def)


end
